theory Spec2Isabelle
  imports Complex_Main "HOL-Library.Multiset"
begin

section \<open>Tensors and the torch operations used by \<open>model_evaluation.py\<close>\<close>

text \<open>
  A tensor is its shape together with its elements in row-major order.  The float
  elements of torch are idealised as real numbers, so rounding and overflow are
  outside this development.  A tensor as torch builds it always has as many elements
  as its shape says (\<open>wf_tensor\<close>).
\<close>

datatype py_error =
    BroadcastError
  | CatEmptyList
  | CatZeroDim
  | CatSizeMismatch
  | ItemNotScalar
  | IterZeroDim
  | ModelError

record tensor =
  shape :: "nat list"
  data :: "real list"

definition wf_tensor :: "tensor \<Rightarrow> bool" where
  "wf_tensor t = (length (data t) = prod_list (shape t))"

definition scalar_tensor :: "real \<Rightarrow> tensor" where
  "scalar_tensor v = \<lparr>shape = [], data = [v]\<rparr>"

text \<open>
  Broadcasting as torch does it: the shapes are aligned at their last dimension; two
  dimensions are compatible when they are equal or one of them is 1; a missing leading
  dimension counts as 1.  \<open>broadcast_rev\<close> works on the reversed shapes.
\<close>

fun broadcast_rev :: "nat list \<Rightarrow> nat list \<Rightarrow> py_error + nat list" where
  "broadcast_rev [] bs = Inr bs"
| "broadcast_rev (a # as) [] = Inr (a # as)"
| "broadcast_rev (a # as) (b # bs) =
     (if a = b \<or> a = 1 \<or> b = 1
      then (case broadcast_rev as bs of
              Inl e \<Rightarrow> Inl e
            | Inr r \<Rightarrow> Inr ((if a = 1 then b else a) # r))
      else Inl BroadcastError)"

definition broadcast_shapes :: "nat list \<Rightarrow> nat list \<Rightarrow> py_error + nat list" where
  "broadcast_shapes a b =
     (case broadcast_rev (rev a) (rev b) of Inl e \<Rightarrow> Inl e | Inr r \<Rightarrow> Inr (rev r))"

text \<open>\<open>chunks n d xs\<close> cuts the first \<open>d\<close> blocks of \<open>n\<close> elements off \<open>xs\<close>.\<close>

fun chunks :: "nat \<Rightarrow> nat \<Rightarrow> 'a list \<Rightarrow> 'a list list" where
  "chunks n 0 xs = []"
| "chunks n (Suc d) xs = take n xs # chunks n d (drop n xs)"

text \<open>
  \<open>expand_data src tgt xs\<close> lays the elements \<open>xs\<close> of a tensor of shape \<open>src\<close> out in
  the shape \<open>tgt\<close> of the same rank: a dimension that agrees is traversed block by
  block, a dimension of size 1 is repeated.
\<close>

fun expand_data :: "nat list \<Rightarrow> nat list \<Rightarrow> real list \<Rightarrow> real list" where
  "expand_data [] ts xs = xs"
| "expand_data (d # ds) [] xs = xs"
| "expand_data (d # ds) (t # ts) xs =
     (if d = t
      then concat (map (expand_data ds ts) (chunks (prod_list ds) d xs))
      else concat (replicate t (expand_data ds ts xs)))"

definition expand :: "nat list \<Rightarrow> tensor \<Rightarrow> tensor" where
  "expand tgt t =
     \<lparr>shape = tgt,
      data = expand_data (replicate (length tgt - length (shape t)) 1 @ shape t) tgt (data t)\<rparr>"

definition binop :: "(real \<Rightarrow> real \<Rightarrow> real) \<Rightarrow> tensor \<Rightarrow> tensor \<Rightarrow> py_error + tensor" where
  "binop f a b =
     (case broadcast_shapes (shape a) (shape b) of
        Inl e \<Rightarrow> Inl e
      | Inr s \<Rightarrow> Inr \<lparr>shape = s, data = map2 f (data (expand s a)) (data (expand s b))\<rparr>)"

definition torch_add :: "tensor \<Rightarrow> tensor \<Rightarrow> py_error + tensor" where
  "torch_add = binop (+)"

definition torch_sub :: "tensor \<Rightarrow> tensor \<Rightarrow> py_error + tensor" where
  "torch_sub = binop (-)"

definition scalar_add :: "real \<Rightarrow> tensor \<Rightarrow> tensor" where
  "scalar_add c t = t\<lparr>data := map (\<lambda>v. c + v) (data t)\<rparr>"

definition scalar_mul :: "real \<Rightarrow> tensor \<Rightarrow> tensor" where
  "scalar_mul c t = t\<lparr>data := map (\<lambda>v. c * v) (data t)\<rparr>"

definition torch_pow :: "tensor \<Rightarrow> nat \<Rightarrow> tensor" where
  "torch_pow t n = t\<lparr>data := map (\<lambda>v. v ^ n) (data t)\<rparr>"

definition torch_exp :: "tensor \<Rightarrow> tensor" where
  "torch_exp t = t\<lparr>data := map exp (data t)\<rparr>"

definition torch_sum :: "tensor \<Rightarrow> tensor" where
  "torch_sum t = scalar_tensor (sum_list (data t))"

text \<open>
  \<open>torch.nn.functional.mse_loss(input, target, reduction='sum')\<close>: the two tensors are
  broadcast against each other (torch only warns when their sizes differ) and the
  squared differences are summed into a 0-dimensional tensor.
\<close>

definition mse_loss_sum :: "tensor \<Rightarrow> tensor \<Rightarrow> py_error + tensor" where
  "mse_loss_sum inp target =
     (case broadcast_shapes (shape inp) (shape target) of
        Inl e \<Rightarrow> Inl e
      | Inr s \<Rightarrow>
          Inr (scalar_tensor
                 (sum_list (map2 (\<lambda>a b. (a - b)\<^sup>2) (data (expand s inp)) (data (expand s target))))))"

section \<open>The VAE objective\<close>

definition vae_loss_function :: "tensor \<Rightarrow> tensor \<Rightarrow> tensor \<Rightarrow> tensor \<Rightarrow> py_error + tensor" where
  "vae_loss_function recon_x x mu logvar =
     (case mse_loss_sum recon_x x of
        Inl e \<Rightarrow> Inl e
      | Inr MSE \<Rightarrow>
          (case torch_sub (scalar_add 1 logvar) (torch_pow mu 2) of
             Inl e \<Rightarrow> Inl e
           | Inr t1 \<Rightarrow>
               (case torch_sub t1 (torch_exp logvar) of
                  Inl e \<Rightarrow> Inl e
                | Inr t2 \<Rightarrow> torch_add MSE (scalar_mul (- 0.5) (torch_sum t2)))))"

section \<open>Further torch, numpy and Python operations\<close>

text \<open>
  \<open>torch.cat(tensors, dim=0)\<close>: an empty list is an error; tensors that are
  one-dimensional and empty are skipped; the others must have at least one dimension
  and agree in all dimensions but the first.  In row-major order the result's
  elements are the elements of the arguments, one after the other.
\<close>

definition torch_cat :: "tensor list \<Rightarrow> py_error + tensor" where
  "torch_cat ts =
     (case ts of
        [] \<Rightarrow> Inl CatEmptyList
      | t # _ \<Rightarrow>
          (case filter (\<lambda>u. shape u \<noteq> [0]) ts of
             [] \<Rightarrow> Inr t
           | k # ks \<Rightarrow>
               if \<exists>u \<in> set (k # ks). shape u = [] then Inl CatZeroDim
               else if \<exists>u \<in> set ks. tl (shape u) \<noteq> tl (shape k) then Inl CatSizeMismatch
               else Inr \<lparr>shape = sum_list (map (\<lambda>u. hd (shape u)) (k # ks)) # tl (shape k),
                         data = concat (map data (k # ks))\<rparr>))"

text \<open>\<open>Tensor.item()\<close>: the value of a tensor with exactly one element.\<close>

definition item :: "tensor \<Rightarrow> py_error + real" where
  "item t = (case data t of [v] \<Rightarrow> Inr v | _ \<Rightarrow> Inl ItemNotScalar)"

text \<open>
  Iterating over a tensor (\<open>for img in batch\<close>) yields its slices along the first
  dimension; a 0-dimensional tensor cannot be iterated.
\<close>

definition rows :: "tensor \<Rightarrow> real list list" where
  "rows t = chunks (prod_list (tl (shape t))) (hd (shape t)) (data t)"

definition unbind :: "tensor \<Rightarrow> py_error + tensor list" where
  "unbind t =
     (case shape t of
        [] \<Rightarrow> Inl IterZeroDim
      | n # rest \<Rightarrow> Inr (map (\<lambda>c. \<lparr>shape = rest, data = c\<rparr>) (rows t)))"

text \<open>\<open>Tensor.to(device)\<close> moves a tensor and leaves its shape and elements alone.\<close>

definition to_device :: "'dev \<Rightarrow> tensor \<Rightarrow> tensor" where
  "to_device device t = t"

text \<open>
  Python and numpy slices \<open>a[:k]\<close> and \<open>a[k:]\<close>: a negative bound counts from the end,
  and every bound is clamped to the length, so a slice never fails.
\<close>

definition slice_index :: "int \<Rightarrow> nat \<Rightarrow> nat" where
  "slice_index k n = (if k < 0 then nat (max 0 (int n + k)) else min (nat k) n)"

definition slice_to :: "int \<Rightarrow> 'a list \<Rightarrow> 'a list" where
  "slice_to k xs = take (slice_index k (length xs)) xs"

definition slice_from :: "int \<Rightarrow> 'a list \<Rightarrow> 'a list" where
  "slice_from k xs = drop (slice_index k (length xs)) xs"

text \<open>
  \<open>np.argsort(a)\<close> is called with its default \<open>kind\<close>, which numpy documents as
  not stable.  What the call guarantees is \<open>is_argsort\<close>: the result is a permutation
  of the indices along which the values do not decrease.  The order among equal values
  is left to numpy, so \<open>argsort\<close> is a parameter of \<open>calculate_losses\<close> below.
\<close>

definition is_argsort :: "real list \<Rightarrow> nat list \<Rightarrow> bool" where
  "is_argsort a idx = (mset idx = mset [0..<length a] \<and> sorted (map (\<lambda>i. a ! i) idx))"

text \<open>
  The specification's reference order: a stable ascending sort, where equal losses keep
  their dataset order.  (\<open>sort_key\<close> is insertion sort, which is stable.)
\<close>

definition stable_argsort :: "real list \<Rightarrow> nat list" where
  "stable_argsort a = map snd (sort_key fst (zip a [0..<length a]))"


section \<open>The model object\<close>

text \<open>
  Of the model the functions use its mode flag, set by \<open>model.eval()\<close>, and its
  encoder and forward pass, which are parameters here: functions of the model's state
  and a batch that return tensors or raise.
\<close>

record 'w vae =
  training :: bool
  weights :: 'w

definition model_eval :: "'w vae \<Rightarrow> 'w vae" where
  "model_eval model = model\<lparr>training := False\<rparr>"

type_synonym 'w encoder = "'w vae \<Rightarrow> tensor \<Rightarrow> py_error + tensor \<times> tensor"

type_synonym 'w forward = "'w vae \<Rightarrow> tensor \<Rightarrow> py_error + tensor \<times> tensor \<times> tensor"

type_synonym loss_fn = "tensor \<Rightarrow> tensor \<Rightarrow> tensor \<Rightarrow> tensor \<Rightarrow> py_error + tensor"

section \<open>\<open>generate_latent\<close>\<close>

text \<open>The loop over the dataloader, with the two lists it appends to.\<close>

fun encode_loop ::
  "(tensor \<Rightarrow> py_error + tensor \<times> tensor) \<Rightarrow> tensor list \<Rightarrow> tensor list \<Rightarrow> tensor list
     \<Rightarrow> py_error + tensor list \<times> tensor list" where
  "encode_loop enc [] mus logvars = Inr (mus, logvars)"
| "encode_loop enc (d # ds) mus logvars =
     (case enc d of
        Inl e \<Rightarrow> Inl e
      | Inr (mu, logvar) \<Rightarrow> encode_loop enc ds (mus @ [mu]) (logvars @ [logvar]))"

text \<open>
  The result pairs what the call returns or raises with the model as the call leaves
  it.
\<close>

definition generate_latent ::
  "'w encoder \<Rightarrow> 'w vae \<Rightarrow> tensor list \<Rightarrow> 'dev \<Rightarrow> (py_error + tensor \<times> tensor) \<times> 'w vae" where
  "generate_latent encoder model dataloader device =
     (let model' = model_eval model in
      ((case encode_loop (\<lambda>d. encoder model' (to_device device d)) dataloader [] [] of
          Inl e \<Rightarrow> Inl e
        | Inr (mus, logvars) \<Rightarrow>
            (case torch_cat mus of
               Inl e \<Rightarrow> Inl e
             | Inr mus' \<Rightarrow>
                 (case torch_cat logvars of
                    Inl e \<Rightarrow> Inl e
                  | Inr logvars' \<Rightarrow> Inr (mus', logvars')))),
       model'))"

section \<open>\<open>calculate_losses\<close>\<close>

fun losses_loop ::
  "(tensor \<Rightarrow> py_error + tensor \<times> tensor \<times> tensor) \<Rightarrow> loss_fn \<Rightarrow> 'dev \<Rightarrow> tensor list
     \<Rightarrow> real list \<Rightarrow> tensor list \<Rightarrow> tensor list
     \<Rightarrow> py_error + real list \<times> tensor list \<times> tensor list" where
  "losses_loop fwd loss_function device [] reconstruction_losses originals reconstructions =
     Inr (reconstruction_losses, originals, reconstructions)"
| "losses_loop fwd loss_function device (d # ds) reconstruction_losses originals reconstructions =
     (let d' = to_device device d in
      case fwd d' of
        Inl e \<Rightarrow> Inl e
      | Inr (recon_batch, mu, logvar) \<Rightarrow>
          (case loss_function recon_batch d' mu logvar of
             Inl e \<Rightarrow> Inl e
           | Inr recon_loss \<Rightarrow>
               (case item recon_loss of
                  Inl e \<Rightarrow> Inl e
                | Inr v \<Rightarrow>
                    losses_loop fwd loss_function device ds
                      (reconstruction_losses @ [v]) (originals @ [d'])
                      (reconstructions @ [recon_batch]))))"

definition best_5_indices :: "nat list \<Rightarrow> nat list" where
  "best_5_indices sorted_indices = slice_to 5 sorted_indices"

definition worst_5_indices :: "nat list \<Rightarrow> nat list" where
  "worst_5_indices sorted_indices = slice_from (- 5) sorted_indices"

text \<open>\<open>[img for batch in batches for img in batch]\<close>\<close>

fun flatten_batches :: "tensor list \<Rightarrow> py_error + tensor list" where
  "flatten_batches [] = Inr []"
| "flatten_batches (b # bs) =
     (case unbind b of
        Inl e \<Rightarrow> Inl e
      | Inr imgs \<Rightarrow>
          (case flatten_batches bs of
             Inl e \<Rightarrow> Inl e
           | Inr rest \<Rightarrow> Inr (imgs @ rest)))"

definition calculate_losses ::
  "(real list \<Rightarrow> nat list) \<Rightarrow> 'w forward \<Rightarrow> 'w vae \<Rightarrow> tensor list \<Rightarrow> 'dev \<Rightarrow> loss_fn
     \<Rightarrow> (py_error + nat list \<times> nat list \<times> tensor list \<times> tensor list) \<times> 'w vae" where
  "calculate_losses argsort fwd model test_loader device loss_function =
     (let model' = model_eval model in
      ((case losses_loop (fwd model') loss_function device test_loader [] [] [] of
          Inl e \<Rightarrow> Inl e
        | Inr (reconstruction_losses, originals, reconstructions) \<Rightarrow>
            (let sorted_indices = argsort reconstruction_losses in
             case flatten_batches originals of
               Inl e \<Rightarrow> Inl e
             | Inr originals' \<Rightarrow>
                 (case flatten_batches reconstructions of
                    Inl e \<Rightarrow> Inl e
                  | Inr reconstructions' \<Rightarrow>
                      Inr (best_5_indices sorted_indices, worst_5_indices sorted_indices,
                           originals', reconstructions')))),
       model'))"

section \<open>A concrete model for the examples\<close>

text \<open>
  A model in training mode whose encoder returns the batch itself as \<open>mu\<close> and the
  batch plus one as \<open>logvar\<close>, and whose forward pass reconstructs every image as zero
  with one latent entry per sample, \<open>mu = logvar = 0\<close>.
\<close>

definition demo_model :: "unit vae" where
  "demo_model = \<lparr>training = True, weights = ()\<rparr>"

definition demo_encoder :: "unit encoder" where
  "demo_encoder model d = Inr (d, scalar_add 1 d)"

definition demo_forward :: "unit forward" where
  "demo_forward model d =
     (let z = \<lparr>shape = [hd (shape d), 1], data = replicate (hd (shape d)) 0\<rparr>
      in Inr (scalar_mul 0 d, z, z))"

text \<open>
  For the ranking examples: a batch of one image of one pixel, that image as iterating
  over the batch yields it, and a loss function that returns the sum of the original
  batch, so that the loss of \<open>single_batch v\<close> is \<open>v\<close>.
\<close>

definition single_batch :: "real \<Rightarrow> tensor" where
  "single_batch v = \<lparr>shape = [1, 1], data = [v]\<rparr>"

definition pixel :: "real \<Rightarrow> tensor" where
  "pixel v = \<lparr>shape = [1], data = [v]\<rparr>"

definition sum_loss :: loss_fn where
  "sum_loss recon_x x mu logvar = Inr (torch_sum x)"

section \<open>Facts about broadcasting\<close>

lemma broadcast_rev_same: "broadcast_rev s s = Inr s"
  by (induction s) simp_all

lemma broadcast_shapes_same: "broadcast_shapes s s = Inr s"
  by (simp add: broadcast_shapes_def broadcast_rev_same)

lemma concat_chunks: "length xs = d * n \<Longrightarrow> concat (chunks n d xs) = xs"
proof (induction d arbitrary: xs)
  case 0
  then show ?case by simp
next
  case (Suc d)
  have "length (drop n xs) = d * n"
    using Suc.prems by simp
  then have "concat (chunks n d (drop n xs)) = drop n xs"
    by (rule Suc.IH)
  then show ?case by simp
qed

lemma chunks_length: "length xs = d * n \<Longrightarrow> ys \<in> set (chunks n d xs) \<Longrightarrow> length ys = n"
proof (induction d arbitrary: xs)
  case 0
  then show ?case by simp
next
  case (Suc d)
  have len: "length (drop n xs) = d * n"
    using Suc.prems(1) by simp
  from Suc.prems(2) consider "ys = take n xs" | "ys \<in> set (chunks n d (drop n xs))"
    by auto
  then show ?case
  proof cases
    case 1
    then show ?thesis using Suc.prems(1) by simp
  next
    case 2
    then show ?thesis using Suc.IH [OF len] by simp
  qed
qed

lemma expand_data_same: "length xs = prod_list s \<Longrightarrow> expand_data s s xs = xs"
proof (induction s arbitrary: xs)
  case Nil
  then show ?case by simp
next
  case (Cons d ds)
  have len: "length xs = d * prod_list ds"
    using Cons.prems by simp
  have "map (expand_data ds ds) (chunks (prod_list ds) d xs) = chunks (prod_list ds) d xs"
  proof (rule map_idI)
    fix ys
    assume "ys \<in> set (chunks (prod_list ds) d xs)"
    then have "length ys = prod_list ds"
      using chunks_length [OF len] by simp
    then show "expand_data ds ds ys = ys"
      by (rule Cons.IH)
  qed
  then show ?case
    using concat_chunks [OF len] by simp
qed

lemma expand_same: "wf_tensor t \<Longrightarrow> expand (shape t) t = t"
  by (simp add: expand_def wf_tensor_def expand_data_same)

lemma binop_same_shape:
  assumes "shape a = shape b" "wf_tensor a" "wf_tensor b"
  shows "binop f a b = Inr \<lparr>shape = shape a, data = map2 f (data a) (data b)\<rparr>"
proof -
  have "expand (shape a) a = a" "expand (shape a) b = b"
    using assms expand_same [of a] expand_same [of b] by simp_all
  then show ?thesis
    using assms(1) by (simp add: binop_def broadcast_shapes_same)
qed

lemma mse_loss_sum_same_shape:
  assumes "shape a = shape b" "wf_tensor a" "wf_tensor b"
  shows "mse_loss_sum a b = Inr (scalar_tensor (\<Sum>(r, y)\<leftarrow>zip (data a) (data b). (r - y)\<^sup>2))"
proof -
  have "expand (shape a) a = a" "expand (shape a) b = b"
    using assms expand_same [of a] expand_same [of b] by simp_all
  then show ?thesis
    using assms(1) by (simp add: mse_loss_sum_def broadcast_shapes_same)
qed

lemma torch_add_scalars:
  "torch_add (scalar_tensor a) (scalar_tensor b) = Inr (scalar_tensor (a + b))"
  by (simp add: torch_add_def binop_def scalar_tensor_def broadcast_shapes_def expand_def)

lemma scalar_mul_scalar: "scalar_mul c (scalar_tensor v) = scalar_tensor (c * v)"
  by (simp add: scalar_mul_def scalar_tensor_def)

lemma kl_terms:
  "length ms = length ls \<Longrightarrow>
   map2 (-) (map2 (-) (map (\<lambda>v. 1 + v) ls) (map (\<lambda>v. v ^ 2) ms)) (map exp ls)
     = map (\<lambda>(m, l). 1 + l - m\<^sup>2 - exp l) (zip ms ls)"
  by (induction ms ls rule: list_induct2) simp_all

lemma kl_tensor_same_shape:
  assumes "shape mu = shape logvar" "wf_tensor mu" "wf_tensor logvar"
  shows "\<exists>t1. torch_sub (scalar_add 1 logvar) (torch_pow mu 2) = Inr t1 \<and>
     torch_sub t1 (torch_exp logvar)
       = Inr \<lparr>shape = shape mu, data = map (\<lambda>(m, l). 1 + l - m\<^sup>2 - exp l) (zip (data mu) (data logvar))\<rparr>"
proof -
  have len: "length (data mu) = length (data logvar)"
    using assms by (simp add: wf_tensor_def)
  have wf1: "wf_tensor (scalar_add 1 logvar)" "wf_tensor (torch_pow mu 2)" "wf_tensor (torch_exp logvar)"
    using assms by (simp_all add: wf_tensor_def scalar_add_def torch_pow_def torch_exp_def)
  have sh: "shape (scalar_add 1 logvar) = shape (torch_pow mu 2)"
    using assms(1) by (simp add: scalar_add_def torch_pow_def)
  define t1 where "t1 = \<lparr>shape = shape mu, data = map2 (-) (map (\<lambda>v. 1 + v) (data logvar)) (map (\<lambda>v. v ^ 2) (data mu))\<rparr>"
  have step1: "torch_sub (scalar_add 1 logvar) (torch_pow mu 2) = Inr t1"
    unfolding torch_sub_def binop_same_shape [OF sh wf1(1) wf1(2)]
    using assms(1) by (simp add: t1_def scalar_add_def torch_pow_def)
  have wft1: "wf_tensor t1"
    using assms len by (simp add: t1_def wf_tensor_def)
  have sh2: "shape t1 = shape (torch_exp logvar)"
    using assms(1) by (simp add: t1_def torch_exp_def)
  have step2: "torch_sub t1 (torch_exp logvar)
       = Inr \<lparr>shape = shape mu, data = map (\<lambda>(m, l). 1 + l - m\<^sup>2 - exp l) (zip (data mu) (data logvar))\<rparr>"
    unfolding torch_sub_def binop_same_shape [OF sh2 wft1 wf1(3)]
    using kl_terms [OF len] by (simp add: t1_def torch_exp_def)
  show ?thesis using step1 step2 by blast
qed

lemma vae_loss_same_shape:
  assumes "shape recon_x = shape x" and "shape mu = shape logvar"
    and "wf_tensor recon_x" and "wf_tensor x" and "wf_tensor mu" and "wf_tensor logvar"
  shows "vae_loss_function recon_x x mu logvar =
     Inr (scalar_tensor
            ((\<Sum>(r, y)\<leftarrow>zip (data recon_x) (data x). (r - y)\<^sup>2)
             + (- 0.5) * (\<Sum>(m, l)\<leftarrow>zip (data mu) (data logvar). 1 + l - m\<^sup>2 - exp l)))"
proof -
  obtain t1 where t1: "torch_sub (scalar_add 1 logvar) (torch_pow mu 2) = Inr t1"
    and t2: "torch_sub t1 (torch_exp logvar)
       = Inr \<lparr>shape = shape mu, data = map (\<lambda>(m, l). 1 + l - m\<^sup>2 - exp l) (zip (data mu) (data logvar))\<rparr>"
    using kl_tensor_same_shape [OF assms(2) assms(5) assms(6)] by blast
  have mse: "mse_loss_sum recon_x x = Inr (scalar_tensor (\<Sum>(r, y)\<leftarrow>zip (data recon_x) (data x). (r - y)\<^sup>2))"
    by (rule mse_loss_sum_same_shape [OF assms(1) assms(3) assms(4)])
  show ?thesis
    by (simp add: vae_loss_function_def mse t1 t2 torch_sum_def scalar_mul_scalar
        torch_add_scalars)
qed

section \<open>Claims about \<open>vae_loss_function\<close>\<close>

text \<open>
  C1.  For a reconstruction and an original of the same shape, and \<open>mu\<close> and \<open>logvar\<close>
  of the same shape, \<open>vae_loss_function\<close> returns the sum over all elements of the
  squared differences plus \<open>-0.5\<close> times the sum over all latent entries of
  \<open>1 + logvar - mu\<^sup>2 - exp logvar\<close>: sums, not means.
\<close>

theorem vae_loss_function_formula:
  assumes "shape recon_x = shape x" and "shape mu = shape logvar"
    and "wf_tensor recon_x" and "wf_tensor x" and "wf_tensor mu" and "wf_tensor logvar"
  shows "vae_loss_function recon_x x mu logvar =
     Inr (scalar_tensor
            ((\<Sum>(r, y)\<leftarrow>zip (data recon_x) (data x). (r - y)\<^sup>2)
             + (- 0.5) * (\<Sum>(m, l)\<leftarrow>zip (data mu) (data logvar). 1 + l - m\<^sup>2 - exp l)))"
  using assms by (rule vae_loss_same_shape)

theorem vae_loss_function_formula_witness:
  "shape \<lparr>shape = [2], data = [1, 2]\<rparr> = shape \<lparr>shape = [2], data = [0, 4]\<rparr>
   \<and> shape \<lparr>shape = [1, 1], data = [3]\<rparr> = shape \<lparr>shape = [1, 1], data = [0]\<rparr>
   \<and> wf_tensor \<lparr>shape = [2], data = [1, 2]\<rparr> \<and> wf_tensor \<lparr>shape = [2], data = [0, 4]\<rparr>
   \<and> wf_tensor \<lparr>shape = [1, 1], data = [3]\<rparr> \<and> wf_tensor \<lparr>shape = [1, 1], data = [0]\<rparr>
   \<and> vae_loss_function \<lparr>shape = [2], data = [1, 2]\<rparr> \<lparr>shape = [2], data = [0, 4]\<rparr>
         \<lparr>shape = [1, 1], data = [3]\<rparr> \<lparr>shape = [1, 1], data = [0]\<rparr>
       = Inr (scalar_tensor 9.5)"
  using vae_loss_function_formula
    [of "\<lparr>shape = [2], data = [1, 2]\<rparr>" "\<lparr>shape = [2], data = [0, 4]\<rparr>"
        "\<lparr>shape = [1, 1], data = [3]\<rparr>" "\<lparr>shape = [1, 1], data = [0]\<rparr>"]
  by (simp add: wf_tensor_def)

section \<open>When \<open>vae_loss_function\<close> fails\<close>

lemma broadcast_rev_nil2: "broadcast_rev bs [] = Inr bs"
  by (cases bs) simp_all

lemma broadcast_rev_absorb: "broadcast_rev a b = Inr c \<Longrightarrow> broadcast_rev c a = Inr c"
proof (induction a b arbitrary: c rule: broadcast_rev.induct)
  case (1 bs)
  then show ?case by (simp add: broadcast_rev_nil2)
next
  case (2 a as)
  then show ?case by (auto simp: broadcast_rev_same)
next
  case (3 a as b bs)
  then show ?case
    by (auto split: if_splits sum.splits)
qed

lemma broadcast_shapes_absorb:
  "broadcast_shapes a b = Inr c \<Longrightarrow> broadcast_shapes c a = Inr c"
  by (auto simp: broadcast_shapes_def split: sum.splits dest: broadcast_rev_absorb)

lemma broadcast_rev_commute: "broadcast_rev a b = broadcast_rev b a"
proof (induction a b rule: broadcast_rev.induct)
  case (1 bs)
  then show ?case by (simp add: broadcast_rev_nil2)
next
  case (2 a as)
  then show ?case by simp
next
  case (3 a as b bs)
  then show ?case
    by (auto split: sum.splits)
qed

lemma broadcast_shapes_commute: "broadcast_shapes a b = broadcast_shapes b a"
  by (simp add: broadcast_shapes_def broadcast_rev_commute [of "rev a"])

lemma broadcast_rev_error: "broadcast_rev a b = Inl e \<Longrightarrow> e = BroadcastError"
  by (induction a b rule: broadcast_rev.induct) (auto split: if_splits sum.splits)

lemma broadcast_shapes_error: "broadcast_shapes a b = Inl e \<Longrightarrow> e = BroadcastError"
  by (auto simp: broadcast_shapes_def split: sum.splits dest: broadcast_rev_error)

lemma binop_cases:
  "(\<exists>e. binop f a b = Inl e \<and> broadcast_shapes (shape a) (shape b) = Inl e) \<or>
   (\<exists>t. binop f a b = Inr t \<and> broadcast_shapes (shape a) (shape b) = Inr (shape t))"
  by (cases "broadcast_shapes (shape a) (shape b)") (simp_all add: binop_def)

lemma mse_loss_sum_cases:
  "(\<exists>e. mse_loss_sum a b = Inl e \<and> broadcast_shapes (shape a) (shape b) = Inl e) \<or>
   (\<exists>v. mse_loss_sum a b = Inr (scalar_tensor v) \<and> \<not> isl (broadcast_shapes (shape a) (shape b)))"
  by (cases "broadcast_shapes (shape a) (shape b)") (auto simp: mse_loss_sum_def)

lemma vae_loss_cases:
  "(\<exists>v. vae_loss_function recon_x x mu logvar = Inr (scalar_tensor v)
        \<and> \<not> isl (broadcast_shapes (shape recon_x) (shape x))
        \<and> \<not> isl (broadcast_shapes (shape mu) (shape logvar)))
   \<or> (vae_loss_function recon_x x mu logvar = Inl BroadcastError
        \<and> (isl (broadcast_shapes (shape recon_x) (shape x))
             \<or> isl (broadcast_shapes (shape mu) (shape logvar))))"
proof -
  consider (mse_err) e where "mse_loss_sum recon_x x = Inl e"
      "broadcast_shapes (shape recon_x) (shape x) = Inl e"
    | (mse_ok) v where "mse_loss_sum recon_x x = Inr (scalar_tensor v)"
      "\<not> isl (broadcast_shapes (shape recon_x) (shape x))"
    using mse_loss_sum_cases [of recon_x x] by blast
  then show ?thesis
  proof cases
    case mse_err
    then have "e = BroadcastError"
      using broadcast_shapes_error by blast
    then show ?thesis
      using mse_err by (simp add: vae_loss_function_def)
  next
    case mse_ok
    let ?a = "scalar_add 1 logvar" and ?b = "torch_pow mu 2"
    have sh: "shape ?a = shape logvar" "shape ?b = shape mu" "shape (torch_exp logvar) = shape logvar"
      by (simp_all add: scalar_add_def torch_pow_def torch_exp_def)
    consider (sub_err) e where "torch_sub ?a ?b = Inl e"
        "broadcast_shapes (shape logvar) (shape mu) = Inl e"
      | (sub_ok) t1 where "torch_sub ?a ?b = Inr t1"
        "broadcast_shapes (shape logvar) (shape mu) = Inr (shape t1)"
      using binop_cases [of "(-)" ?a ?b] unfolding sh torch_sub_def [symmetric] by blast
    then show ?thesis
    proof cases
      case sub_err
      then have "e = BroadcastError"
        using broadcast_shapes_error by blast
      moreover have "isl (broadcast_shapes (shape mu) (shape logvar))"
        using sub_err(2) by (simp add: broadcast_shapes_commute [of "shape mu"])
      ultimately show ?thesis
        using mse_ok sub_err by (simp add: vae_loss_function_def)
    next
      case sub_ok
      have "broadcast_shapes (shape t1) (shape logvar) = Inr (shape t1)"
        using sub_ok(2) by (rule broadcast_shapes_absorb)
      then obtain t2 where t2: "torch_sub t1 (torch_exp logvar) = Inr t2"
        using binop_cases [of "(-)" t1 "torch_exp logvar"] unfolding sh torch_sub_def [symmetric]
        by auto
      have ok: "\<not> isl (broadcast_shapes (shape mu) (shape logvar))"
        using sub_ok(2) by (simp add: broadcast_shapes_commute [of "shape mu"])
      have "vae_loss_function recon_x x mu logvar
          = Inr (scalar_tensor (v + (- 0.5) * sum_list (data t2)))"
        using mse_ok(1) sub_ok(1) t2
        by (simp add: vae_loss_function_def torch_sum_def scalar_mul_scalar torch_add_scalars)
      then show ?thesis
        using mse_ok(2) ok by blast
    qed
  qed
qed

text \<open>
  C4, as the code has it.  \<open>vae_loss_function\<close> fails exactly when the shapes of the
  reconstruction and the original cannot be broadcast against each other, or those of
  \<open>mu\<close> and \<open>logvar\<close> cannot; the failure is torch's size-mismatch error; for equal
  shapes the call never fails.  Shapes that differ but can be broadcast are broadcast
  and a value is returned.
\<close>

theorem vae_loss_function_failure:
  "(isl (vae_loss_function recon_x x mu logvar) \<longleftrightarrow>
      isl (broadcast_shapes (shape recon_x) (shape x))
      \<or> isl (broadcast_shapes (shape mu) (shape logvar)))
   \<and> (\<forall>e. vae_loss_function recon_x x mu logvar = Inl e \<longrightarrow> e = BroadcastError)
   \<and> (shape recon_x = shape x \<and> shape mu = shape logvar \<longrightarrow>
        \<not> isl (vae_loss_function recon_x x mu logvar))"
proof -
  have same: "shape recon_x = shape x \<Longrightarrow> \<not> isl (broadcast_shapes (shape recon_x) (shape x))"
    "shape mu = shape logvar \<Longrightarrow> \<not> isl (broadcast_shapes (shape mu) (shape logvar))"
    by (simp_all add: broadcast_shapes_same)
  show ?thesis
    using vae_loss_cases [of recon_x x mu logvar] same by auto
qed

theorem vae_loss_function_failure_witness:
  "isl (broadcast_shapes (shape \<lparr>shape = [2], data = [1, 2]\<rparr>) (shape \<lparr>shape = [3], data = [0, 4, 1]\<rparr>))
   \<and> vae_loss_function \<lparr>shape = [2], data = [1, 2]\<rparr> \<lparr>shape = [3], data = [0, 4, 1]\<rparr>
         \<lparr>shape = [1, 1], data = [3]\<rparr> \<lparr>shape = [1, 1], data = [0]\<rparr> = Inl BroadcastError
   \<and> shape \<lparr>shape = [2], data = [1, 2]\<rparr> = shape \<lparr>shape = [2], data = [0, 4]\<rparr>
   \<and> shape \<lparr>shape = [1, 1], data = [3]\<rparr> = shape \<lparr>shape = [1, 1], data = [0]\<rparr>
   \<and> \<not> isl (vae_loss_function \<lparr>shape = [2], data = [1, 2]\<rparr> \<lparr>shape = [2], data = [0, 4]\<rparr>
              \<lparr>shape = [1, 1], data = [3]\<rparr> \<lparr>shape = [1, 1], data = [0]\<rparr>)"
proof -
  have bad: "isl (broadcast_shapes (shape \<lparr>shape = [2], data = [1, 2]\<rparr>) (shape \<lparr>shape = [3], data = [0, 4, 1]\<rparr>))"
    by (simp add: broadcast_shapes_def)
  then have "isl (vae_loss_function \<lparr>shape = [2], data = [1, 2]\<rparr> \<lparr>shape = [3], data = [0, 4, 1]\<rparr>
         \<lparr>shape = [1, 1], data = [3]\<rparr> \<lparr>shape = [1, 1], data = [0]\<rparr>)"
    using vae_loss_function_failure
      [of "\<lparr>shape = [2], data = [1, 2]\<rparr>" "\<lparr>shape = [3], data = [0, 4, 1]\<rparr>"
          "\<lparr>shape = [1, 1], data = [3]\<rparr>" "\<lparr>shape = [1, 1], data = [0]\<rparr>"]
    by blast
  then have err: "vae_loss_function \<lparr>shape = [2], data = [1, 2]\<rparr> \<lparr>shape = [3], data = [0, 4, 1]\<rparr>
         \<lparr>shape = [1, 1], data = [3]\<rparr> \<lparr>shape = [1, 1], data = [0]\<rparr> = Inl BroadcastError"
    using vae_loss_function_failure
      [of "\<lparr>shape = [2], data = [1, 2]\<rparr>" "\<lparr>shape = [3], data = [0, 4, 1]\<rparr>"
          "\<lparr>shape = [1, 1], data = [3]\<rparr>" "\<lparr>shape = [1, 1], data = [0]\<rparr>"]
    by (cases "vae_loss_function \<lparr>shape = [2], data = [1, 2]\<rparr> \<lparr>shape = [3], data = [0, 4, 1]\<rparr>
         \<lparr>shape = [1, 1], data = [3]\<rparr> \<lparr>shape = [1, 1], data = [0]\<rparr>") simp_all
  have ok: "\<not> isl (vae_loss_function \<lparr>shape = [2], data = [1, 2]\<rparr> \<lparr>shape = [2], data = [0, 4]\<rparr>
              \<lparr>shape = [1, 1], data = [3]\<rparr> \<lparr>shape = [1, 1], data = [0]\<rparr>)"
    using vae_loss_function_failure
      [of "\<lparr>shape = [2], data = [1, 2]\<rparr>" "\<lparr>shape = [2], data = [0, 4]\<rparr>"
          "\<lparr>shape = [1, 1], data = [3]\<rparr>" "\<lparr>shape = [1, 1], data = [0]\<rparr>"]
    by (simp add: broadcast_shapes_same)
  show ?thesis
    using bad err ok by simp
qed

text \<open>
  C4 as stated fails: a reconstruction of shape \<open>[1]\<close> against an original of shape
  \<open>[2]\<close>, with \<open>mu\<close> of shape \<open>[1]\<close> against \<open>logvar\<close> of shape \<open>[2]\<close>, raises
  nothing; both pairs are broadcast and the loss 9 is returned.
\<close>

theorem vae_loss_function_broadcasts:
  "shape \<lparr>shape = [1], data = [1]\<rparr> \<noteq> shape \<lparr>shape = [2], data = [0, 3]\<rparr>
   \<and> shape \<lparr>shape = [1], data = [2]\<rparr> \<noteq> shape \<lparr>shape = [2], data = [0, 0]\<rparr>
   \<and> vae_loss_function \<lparr>shape = [1], data = [1]\<rparr> \<lparr>shape = [2], data = [0, 3]\<rparr>
         \<lparr>shape = [1], data = [2]\<rparr> \<lparr>shape = [2], data = [0, 0]\<rparr>
       = Inr (scalar_tensor 9)"
  by (simp add: vae_loss_function_def mse_loss_sum_def torch_sub_def torch_add_def binop_def
      broadcast_shapes_def expand_def scalar_add_def scalar_mul_def torch_pow_def torch_exp_def
      torch_sum_def scalar_tensor_def numeral_2_eq_2)

section \<open>Facts about \<open>generate_latent\<close>\<close>

lemma encode_loop_all_ok:
  assumes "\<forall>d \<in> set ds. \<not> isl (enc d)"
  shows "encode_loop enc ds mus logvars =
     Inr (mus @ map (\<lambda>d. fst (projr (enc d))) ds, logvars @ map (\<lambda>d. snd (projr (enc d))) ds)"
  using assms
proof (induction ds arbitrary: mus logvars)
  case Nil
  then show ?case by simp
next
  case (Cons d ds)
  from Cons.prems obtain mu logvar where d: "enc d = Inr (mu, logvar)"
    by (cases "enc d") auto
  have "encode_loop enc ds (mus @ [mu]) (logvars @ [logvar]) =
     Inr ((mus @ [mu]) @ map (\<lambda>d. fst (projr (enc d))) ds,
          (logvars @ [logvar]) @ map (\<lambda>d. snd (projr (enc d))) ds)"
    using Cons.prems by (intro Cons.IH) simp
  then show ?case
    using d by simp
qed

lemma length_chunks: "length (chunks n d xs) = d"
  by (induction d arbitrary: xs) simp_all

lemma chunks_append:
  "length xs = d1 * n \<Longrightarrow> chunks n (d1 + d2) (xs @ ys) = chunks n d1 xs @ chunks n d2 ys"
proof (induction d1 arbitrary: xs)
  case 0
  then show ?case by simp
next
  case (Suc d1)
  have len: "length (drop n xs) = d1 * n" and ge: "n \<le> length xs"
    using Suc.prems by simp_all
  have "chunks n (d1 + d2) (drop n xs @ ys) = chunks n d1 (drop n xs) @ chunks n d2 ys"
    using len by (rule Suc.IH)
  then show ?case
    using ge by simp
qed

lemma chunks_concat:
  "\<forall>t \<in> set ts. length (f t) = S * n \<Longrightarrow>
   chunks n (length ts * S) (concat (map f ts)) = concat (map (\<lambda>t. chunks n S (f t)) ts)"
proof (induction ts)
  case Nil
  then show ?case by simp
next
  case (Cons t ts)
  have "chunks n (S + length ts * S) (f t @ concat (map f ts))
      = chunks n S (f t) @ chunks n (length ts * S) (concat (map f ts))"
    using Cons.prems by (intro chunks_append) simp
  then show ?case
    using Cons by simp
qed

lemma sum_list_const: "\<forall>t \<in> set ts. f t = (c::nat) \<Longrightarrow> sum_list (map f ts) = length ts * c"
  by (induction ts) simp_all

lemma torch_cat_same_shape:
  assumes ne: "ts \<noteq> []"
    and all: "\<forall>t \<in> set ts. shape t = S # L \<and> wf_tensor t"
  shows "\<exists>r. torch_cat ts = Inr r \<and> shape r = (length ts * S) # L
           \<and> data r = concat (map data ts)
           \<and> rows r = concat (map rows ts)"
proof -
  obtain k ks where ts: "ts = k # ks"
    using ne by (cases ts) auto
  have shk: "shape k = S # L" and shks: "\<forall>u \<in> set ks. shape u = S # L"
    using all unfolding ts by simp_all
  have len: "\<forall>t \<in> set ts. length (data t) = S * prod_list L"
    using all by (simp add: wf_tensor_def)
  have "concat (map rows ts) = concat (map (\<lambda>t. chunks (prod_list L) S (data t)) ts)"
    using all by (intro arg_cong [where f = concat] map_cong) (simp_all add: rows_def)
  also have "\<dots> = chunks (prod_list L) (length ts * S) (concat (map data ts))"
    using chunks_concat [OF len] by simp
  finally have rows_eq:
    "chunks (prod_list L) (length ts * S) (concat (map data ts)) = concat (map rows ts)"
    by simp
  show ?thesis
  proof (cases "S # L = [0]")
    case True
    then have S: "S = 0" and L: "L = []"
      by simp_all
    have filt: "filter (\<lambda>u. shape u \<noteq> [0]) (k # ks) = []"
      unfolding filter_empty_conv using shk shks True by auto
    have empty: "\<forall>t \<in> set ts. data t = []"
      using len unfolding S by simp
    then have cc: "concat (map data ts) = []"
      by simp
    have dk: "data k = []"
      using empty unfolding ts by simp
    have r1: "torch_cat ts = Inr k"
      unfolding torch_cat_def ts list.case filt by simp
    have r2: "shape k = (length ts * S) # L"
      unfolding shk S by simp
    have r3: "data k = concat (map data ts)"
      unfolding cc dk by simp
    have "rows k = chunks (prod_list L) (length ts * S) (concat (map data ts))"
      unfolding rows_def shk cc dk S by simp
    then have r4: "rows k = concat (map rows ts)"
      unfolding rows_eq .
    show ?thesis
      using r1 r2 r3 r4 by blast
  next
    case False
    have filt: "filter (\<lambda>u. shape u \<noteq> [0]) (k # ks) = k # ks"
      unfolding filter_id_conv using shk shks False by auto
    have c1: "\<not> (\<exists>u \<in> set (k # ks). shape u = [])"
      using shk shks by auto
    have c2: "\<not> (\<exists>u \<in> set ks. tl (shape u) \<noteq> tl (shape k))"
      using shk shks by auto
    have sum: "sum_list (map (\<lambda>u. hd (shape u)) (k # ks)) = length ts * S"
      unfolding ts [symmetric] using all by (intro sum_list_const) simp
    let ?r = "\<lparr>shape = (length ts * S) # L, data = concat (map data ts)\<rparr>"
    have "torch_cat ts = Inr \<lparr>shape = sum_list (map (\<lambda>u. hd (shape u)) (k # ks)) # tl (shape k),
                         data = concat (map data (k # ks))\<rparr>"
      unfolding torch_cat_def ts list.case filt using c1 c2 by (simp only: if_False)
    then have r1: "torch_cat ts = Inr ?r"
      unfolding sum shk ts by simp
    have "rows ?r = chunks (prod_list L) (length ts * S) (concat (map data ts))"
      by (simp add: rows_def)
    then have r4: "rows ?r = concat (map rows ts)"
      unfolding rows_eq .
    show ?thesis
      using r1 r4 by simp
  qed
qed

text \<open>
  C6.  For a dataloader of at least one batch, every batch holding \<open>S\<close> samples for
  which the encoder returns \<open>mu\<close> and \<open>logvar\<close> with one row of shape \<open>L\<close> per sample,
  \<open>generate_latent\<close> returns \<open>mu\<close> and \<open>logvar\<close> tensors of \<open>B * S\<close> rows, \<open>B\<close> the number
  of batches, whose rows are the rows of the batches' outputs in the order of the
  batches, and within a batch in the order of its samples.
\<close>

theorem generate_latent_order:
  assumes ne: "dataloader \<noteq> []"
    and batches: "\<forall>d \<in> set dataloader. hd (shape d) = S \<and>
        (\<exists>mu logvar. encoder (model_eval model) d = Inr (mu, logvar)
           \<and> wf_tensor mu \<and> wf_tensor logvar
           \<and> shape mu = hd (shape d) # L \<and> shape logvar = hd (shape d) # L)"
  shows "\<exists>mus logvars.
      fst (generate_latent encoder model dataloader device) = Inr (mus, logvars)
      \<and> shape mus = (length dataloader * S) # L
      \<and> shape logvars = (length dataloader * S) # L
      \<and> length (rows mus) = length dataloader * S
      \<and> length (rows logvars) = length dataloader * S
      \<and> rows mus
          = concat (map (\<lambda>d. rows (fst (projr (encoder (model_eval model) d)))) dataloader)
      \<and> rows logvars
          = concat (map (\<lambda>d. rows (snd (projr (encoder (model_eval model) d)))) dataloader)"
proof -
  let ?enc = "\<lambda>d. encoder (model_eval model) (to_device device d)"
  let ?mu = "\<lambda>d. fst (projr (encoder (model_eval model) d))"
  let ?lv = "\<lambda>d. snd (projr (encoder (model_eval model) d))"
  have ok: "\<forall>d \<in> set dataloader. \<not> isl (?enc d)"
    using batches by (auto simp: to_device_def)
  have loop: "encode_loop ?enc dataloader [] [] = Inr (map ?mu dataloader, map ?lv dataloader)"
    using encode_loop_all_ok [OF ok, of "[]" "[]"] by (simp add: to_device_def)
  have mu_ok: "\<forall>t \<in> set (map ?mu dataloader). shape t = S # L \<and> wf_tensor t"
    using batches by fastforce
  have lv_ok: "\<forall>t \<in> set (map ?lv dataloader). shape t = S # L \<and> wf_tensor t"
    using batches by fastforce
  have ne': "map ?mu dataloader \<noteq> []" "map ?lv dataloader \<noteq> []"
    using ne by simp_all
  obtain mus where mus: "torch_cat (map ?mu dataloader) = Inr mus"
      "shape mus = (length dataloader * S) # L"
      "rows mus = concat (map rows (map ?mu dataloader))"
    using torch_cat_same_shape [OF ne'(1) mu_ok] by auto
  obtain logvars where lvs: "torch_cat (map ?lv dataloader) = Inr logvars"
      "shape logvars = (length dataloader * S) # L"
      "rows logvars = concat (map rows (map ?lv dataloader))"
    using torch_cat_same_shape [OF ne'(2) lv_ok] by auto
  have res: "fst (generate_latent encoder model dataloader device) = Inr (mus, logvars)"
    by (simp add: generate_latent_def Let_def loop mus(1) lvs(1))
  have rows_len: "\<And>t. length (rows t) = hd (shape t)"
    by (simp add: rows_def length_chunks)
  show ?thesis
    using res mus(2,3) lvs(2,3) rows_len [of mus] rows_len [of logvars]
    by (simp add: comp_def)
qed

theorem generate_latent_order_witness:
  "[\<lparr>shape = [2, 1], data = [1, 2]\<rparr>, \<lparr>shape = [2, 1], data = [3, 4]\<rparr>] \<noteq> []
   \<and> hd (shape \<lparr>shape = [2, 1], data = [1, 2]\<rparr>) = 2
   \<and> demo_encoder (model_eval demo_model) \<lparr>shape = [2, 1], data = [1, 2]\<rparr>
       = Inr (\<lparr>shape = [2, 1], data = [1, 2]\<rparr>, \<lparr>shape = [2, 1], data = [2, 3]\<rparr>)
   \<and> wf_tensor \<lparr>shape = [2, 1], data = [1, 2]\<rparr> \<and> wf_tensor \<lparr>shape = [2, 1], data = [2, 3]\<rparr>
   \<and> hd (shape \<lparr>shape = [2, 1], data = [3, 4]\<rparr>) = 2
   \<and> demo_encoder (model_eval demo_model) \<lparr>shape = [2, 1], data = [3, 4]\<rparr>
       = Inr (\<lparr>shape = [2, 1], data = [3, 4]\<rparr>, \<lparr>shape = [2, 1], data = [4, 5]\<rparr>)
   \<and> wf_tensor \<lparr>shape = [2, 1], data = [3, 4]\<rparr> \<and> wf_tensor \<lparr>shape = [2, 1], data = [4, 5]\<rparr>
   \<and> (\<exists>mus logvars.
         fst (generate_latent demo_encoder demo_model
                [\<lparr>shape = [2, 1], data = [1, 2]\<rparr>, \<lparr>shape = [2, 1], data = [3, 4]\<rparr>] ())
           = Inr (mus, logvars)
         \<and> shape mus = [4, 1] \<and> shape logvars = [4, 1]
         \<and> rows mus = [[1], [2], [3], [4]] \<and> rows logvars = [[2], [3], [4], [5]])"
proof -
  let ?loader = "[\<lparr>shape = [2, 1], data = [1, 2]\<rparr>, \<lparr>shape = [2, 1], data = [3, 4]\<rparr>]"
  have h1: "?loader \<noteq> []"
    by simp
  have h2: "\<forall>d \<in> set ?loader.
         hd (shape d) = 2 \<and>
         (\<exists>mu logvar. demo_encoder (model_eval demo_model) d = Inr (mu, logvar)
            \<and> wf_tensor mu \<and> wf_tensor logvar
            \<and> shape mu = hd (shape d) # [1] \<and> shape logvar = hd (shape d) # [1])"
    by (simp add: demo_encoder_def wf_tensor_def scalar_add_def)
  obtain mus logvars where r:
      "fst (generate_latent demo_encoder demo_model ?loader ()) = Inr (mus, logvars)"
      "shape mus = (length ?loader * 2) # [1]" "shape logvars = (length ?loader * 2) # [1]"
      "rows mus = concat (map (\<lambda>d. rows (fst (projr (demo_encoder (model_eval demo_model) d)))) ?loader)"
      "rows logvars = concat (map (\<lambda>d. rows (snd (projr (demo_encoder (model_eval demo_model) d)))) ?loader)"
    using generate_latent_order [where encoder = demo_encoder and model = demo_model and device = "()" and S = 2 and L = "[1]", OF h1 h2] by blast
  have "shape mus = [4, 1]" "shape logvars = [4, 1]"
    using r(2,3) by simp_all
  moreover have "rows mus = [[1], [2], [3], [4]]" "rows logvars = [[2], [3], [4], [5]]"
    unfolding r(4,5) by (simp_all add: demo_encoder_def rows_def scalar_add_def numeral_2_eq_2)
  moreover have "demo_encoder (model_eval demo_model) \<lparr>shape = [2, 1], data = [1, 2]\<rparr>
       = Inr (\<lparr>shape = [2, 1], data = [1, 2]\<rparr>, \<lparr>shape = [2, 1], data = [2, 3]\<rparr>)"
    "demo_encoder (model_eval demo_model) \<lparr>shape = [2, 1], data = [3, 4]\<rparr>
       = Inr (\<lparr>shape = [2, 1], data = [3, 4]\<rparr>, \<lparr>shape = [2, 1], data = [4, 5]\<rparr>)"
    by (simp_all add: demo_encoder_def scalar_add_def)
  moreover have "wf_tensor \<lparr>shape = [2, 1], data = [1, 2]\<rparr>" "wf_tensor \<lparr>shape = [2, 1], data = [2, 3]\<rparr>"
    "wf_tensor \<lparr>shape = [2, 1], data = [3, 4]\<rparr>" "wf_tensor \<lparr>shape = [2, 1], data = [4, 5]\<rparr>"
    by (simp_all add: wf_tensor_def)
  ultimately show ?thesis
    using r(1) by simp
qed

text \<open>
  C3, as the code has it.  For a dataloader that yields no batch, both lists stay
  empty and \<open>torch.cat\<close> of an empty list raises: \<open>generate_latent\<close> fails, after it has
  put the model in evaluation mode.
\<close>

theorem generate_latent_empty_loader:
  "generate_latent encoder model [] device = (Inl CatEmptyList, model_eval model)"
  by (simp add: generate_latent_def torch_cat_def)

text \<open>
  C3 as stated fails: on the empty dataloader the call returns no empty sequences, it
  raises.
\<close>

theorem generate_latent_empty_fails:
  "fst (generate_latent demo_encoder demo_model [] ()) = Inl CatEmptyList"
  by (simp add: generate_latent_def torch_cat_def)

section \<open>The mode flag\<close>

text \<open>
  C10.  Whatever the model's mode before the call, and whether the call returns or
  raises, \<open>generate_latent\<close> and \<open>calculate_losses\<close> leave the model in evaluation mode
  (the flag is not restored) and with the weights it had.
\<close>

theorem eval_mode_after_call:
  "training (snd (generate_latent encoder model dataloader device)) = False
   \<and> weights (snd (generate_latent encoder model dataloader device)) = weights model
   \<and> training (snd (calculate_losses argsort fwd model test_loader device loss_function)) = False
   \<and> weights (snd (calculate_losses argsort fwd model test_loader device loss_function))
        = weights model"
  by (simp add: generate_latent_def calculate_losses_def model_eval_def Let_def)

section \<open>Facts about slices and \<open>argsort\<close>\<close>

lemma slice_to_5: "slice_to 5 xs = take 5 xs"
  by (simp add: slice_to_def slice_index_def min_def)

lemma slice_from_neg5: "slice_from (- 5) xs = drop (length xs - 5) xs"
proof -
  have "nat (max 0 (int (length xs) + - 5)) = length xs - 5"
    by simp
  then show ?thesis
    by (simp add: slice_from_def slice_index_def)
qed

lemma is_argsort_length: "is_argsort a idx \<Longrightarrow> length idx = length a"
proof -
  assume "is_argsort a idx"
  then have "size (mset idx) = size (mset [0..<length a])"
    by (simp add: is_argsort_def)
  then show ?thesis by simp
qed

lemma is_argsort_set: "is_argsort a idx \<Longrightarrow> set idx = {0..<length a}"
proof -
  assume "is_argsort a idx"
  then have "set_mset (mset idx) = set_mset (mset [0..<length a])"
    by (simp add: is_argsort_def)
  then show ?thesis by simp
qed


lemma stable_argsort_is_argsort: "is_argsort a (stable_argsort a)"
proof -
  let ?l = "zip a [0..<length a]"
  have "map snd ?l = [0..<length a]"
    by (rule map_snd_zip) simp
  moreover have "mset (map snd (sort_key fst ?l)) = mset (map snd ?l)"
    unfolding mset_map mset_sort ..
  ultimately have perm: "mset (stable_argsort a) = mset [0..<length a]"
    unfolding stable_argsort_def by (rule subst)
  have pt: "\<And>p. p \<in> set (sort_key fst ?l) \<Longrightarrow> a ! snd p = fst p"
  proof -
    fix p
    assume "p \<in> set (sort_key fst ?l)"
    then have "p \<in> set ?l" by simp
    then obtain j where "j < length a" "p = (a ! j, j)"
      by (auto simp: set_zip)
    then show "a ! snd p = fst p" by simp
  qed
  have eq: "map (\<lambda>i. a ! i) (map snd (sort_key fst ?l)) = map fst (sort_key fst ?l)"
    unfolding map_map comp_def by (rule map_cong [OF refl]) (rule pt)
  have "sorted (map (\<lambda>i. a ! i) (stable_argsort a))"
    unfolding stable_argsort_def eq by (rule sorted_sort_key)
  then show ?thesis
    using perm by (simp add: is_argsort_def)
qed



section \<open>The empty test set\<close>

lemma is_argsort_Nil: "is_argsort [] idx \<Longrightarrow> idx = []"
  by (simp add: is_argsort_def)

text \<open>
  C8, as the code has it.  For an empty test set the loop collects nothing, the argsort
  of the empty array is empty, both slices are empty, and \<open>calculate_losses\<close> returns
  four empty results without raising.
\<close>

theorem calculate_losses_empty_loader:
  assumes "is_argsort [] (argsort [])"
  shows "calculate_losses argsort fwd model [] device loss_function
     = (Inr ([], [], [], []), model_eval model)"
proof -
  have "argsort [] = []"
    using assms by (rule is_argsort_Nil)
  then show ?thesis
    by (simp add: calculate_losses_def best_5_indices_def worst_5_indices_def
        slice_to_def slice_from_def)
qed

theorem calculate_losses_empty_loader_witness:
  "is_argsort [] (stable_argsort [])
   \<and> calculate_losses stable_argsort demo_forward demo_model [] () vae_loss_function
       = (Inr ([], [], [], []), model_eval demo_model)"
  using calculate_losses_empty_loader
    [where argsort = stable_argsort and fwd = demo_forward
       and loss_function = vae_loss_function and model = demo_model and device = "()"]
    stable_argsort_is_argsort [of "[]"]
  by simp

text \<open>
  C8 as stated fails: on the empty test set the call does not fail, it returns empty
  index lists.
\<close>

theorem calculate_losses_empty_returns:
  "fst (calculate_losses stable_argsort demo_forward demo_model [] () vae_loss_function)
     = Inr ([], [], [], [])"
  by (simp add: calculate_losses_def best_5_indices_def worst_5_indices_def
      slice_to_def slice_from_def stable_argsort_def)

section \<open>One loss per batch\<close>

lemma demo_loss_1:
  "vae_loss_function \<lparr>shape = [2, Suc 0], data = [0, 0]\<rparr> \<lparr>shape = [2, Suc 0], data = [3, 4]\<rparr>
     \<lparr>shape = [2, Suc 0], data = [0, 0]\<rparr> \<lparr>shape = [2, Suc 0], data = [0, 0]\<rparr> = Inr (scalar_tensor 25)"
  using vae_loss_same_shape
    [of "\<lparr>shape = [2, Suc 0], data = [0, 0]\<rparr>" "\<lparr>shape = [2, Suc 0], data = [3, 4]\<rparr>"
        "\<lparr>shape = [2, Suc 0], data = [0, 0]\<rparr>" "\<lparr>shape = [2, Suc 0], data = [0, 0]\<rparr>"]
  by (simp add: wf_tensor_def)

lemma demo_loss_2:
  "vae_loss_function \<lparr>shape = [2, Suc 0], data = [0, 0]\<rparr> \<lparr>shape = [2, Suc 0], data = [0, 0]\<rparr>
     \<lparr>shape = [2, Suc 0], data = [0, 0]\<rparr> \<lparr>shape = [2, Suc 0], data = [0, 0]\<rparr> = Inr (scalar_tensor 0)"
  using vae_loss_same_shape
    [of "\<lparr>shape = [2, Suc 0], data = [0, 0]\<rparr>" "\<lparr>shape = [2, Suc 0], data = [0, 0]\<rparr>"
        "\<lparr>shape = [2, Suc 0], data = [0, 0]\<rparr>" "\<lparr>shape = [2, Suc 0], data = [0, 0]\<rparr>"]
  by (simp add: wf_tensor_def)

lemma demo_forward_batch:
  "demo_forward m \<lparr>shape = [2, Suc 0], data = [a, b]\<rparr>
     = Inr (\<lparr>shape = [2, Suc 0], data = [0, 0]\<rparr>, \<lparr>shape = [2, Suc 0], data = [0, 0]\<rparr>,
            \<lparr>shape = [2, Suc 0], data = [0, 0]\<rparr>)"
proof -
  have "replicate 2 (0::real) = [0, 0]"
    by (simp add: numeral_2_eq_2)
  then show ?thesis
    by (simp add: demo_forward_def scalar_mul_def Let_def)
qed

lemma demo_losses_loop:
  "losses_loop (demo_forward m) vae_loss_function ()
     [\<lparr>shape = [2, 1], data = [3, 4]\<rparr>, \<lparr>shape = [2, 1], data = [0, 0]\<rparr>] [] [] []
   = Inr ([25, 0],
          [\<lparr>shape = [2, 1], data = [3, 4]\<rparr>, \<lparr>shape = [2, 1], data = [0, 0]\<rparr>],
          [\<lparr>shape = [2, 1], data = [0, 0]\<rparr>, \<lparr>shape = [2, 1], data = [0, 0]\<rparr>])"
  by (simp add: Let_def to_device_def demo_forward_batch demo_loss_1 demo_loss_2 item_def
      scalar_tensor_def)

lemma unbind_batch:
  "unbind \<lparr>shape = [2, Suc 0], data = [a, b]\<rparr>
     = Inr [\<lparr>shape = [Suc 0], data = [a]\<rparr>, \<lparr>shape = [Suc 0], data = [b]\<rparr>]"
proof -
  have "chunks (Suc 0) 2 [a, b] = [[a], [b]]"
    by (simp add: numeral_2_eq_2)
  then show ?thesis
    by (simp add: unbind_def rows_def)
qed

text \<open>
  C2.  The loop appends one loss per batch, while the originals and reconstructions are
  flattened to one entry per image.  For two batches of two images the losses are
  \<open>[25, 0]\<close>, so the returned indices \<open>[1, 0]\<close> number batches; as an index into the
  four flattened originals, the best index 1 selects the image \<open>[4]\<close> of the batch with
  the larger loss.
\<close>

theorem calculate_losses_batch_indices:
  "fst (calculate_losses stable_argsort demo_forward demo_model
          [\<lparr>shape = [2, 1], data = [3, 4]\<rparr>, \<lparr>shape = [2, 1], data = [0, 0]\<rparr>] () vae_loss_function)
     = Inr ([1, 0], [1, 0],
            [\<lparr>shape = [1], data = [3]\<rparr>, \<lparr>shape = [1], data = [4]\<rparr>,
             \<lparr>shape = [1], data = [0]\<rparr>, \<lparr>shape = [1], data = [0]\<rparr>],
            [\<lparr>shape = [1], data = [0]\<rparr>, \<lparr>shape = [1], data = [0]\<rparr>,
             \<lparr>shape = [1], data = [0]\<rparr>, \<lparr>shape = [1], data = [0]\<rparr>])"
proof -
  have s: "stable_argsort [25, 0] = [1, 0]"
    by (simp add: stable_argsort_def upt_rec)
  have b: "best_5_indices (stable_argsort [25, 0]) = [1, 0]"
    "worst_5_indices (stable_argsort [25, 0]) = [1, 0]"
    unfolding s by (simp_all add: best_5_indices_def worst_5_indices_def slice_to_5 slice_from_neg5)
  have fo: "flatten_batches [\<lparr>shape = [2, 1], data = [3, 4]\<rparr>, \<lparr>shape = [2, 1], data = [0, 0]\<rparr>]
      = Inr [\<lparr>shape = [1], data = [3]\<rparr>, \<lparr>shape = [1], data = [4]\<rparr>,
             \<lparr>shape = [1], data = [0]\<rparr>, \<lparr>shape = [1], data = [0]\<rparr>]"
    by (simp add: unbind_batch)
  have fr: "flatten_batches [\<lparr>shape = [2, 1], data = [0, 0]\<rparr>, \<lparr>shape = [2, 1], data = [0, 0]\<rparr>]
      = Inr [\<lparr>shape = [1], data = [0]\<rparr>, \<lparr>shape = [1], data = [0]\<rparr>,
             \<lparr>shape = [1], data = [0]\<rparr>, \<lparr>shape = [1], data = [0]\<rparr>]"
    by (simp add: unbind_batch)
  show ?thesis
    unfolding calculate_losses_def Let_def demo_losses_loop
    by (simp only: sum.case prod.case fst_conv fo fr b)
qed

section \<open>The ranking that \<open>calculate_losses\<close> returns\<close>

lemma calculate_losses_result:
  assumes loop: "losses_loop (fwd (model_eval model)) loss_function device test_loader [] [] []
      = Inr (losses, originals, reconstructions)"
    and fo: "flatten_batches originals = Inr originals'"
    and fr: "flatten_batches reconstructions = Inr reconstructions'"
  shows "fst (calculate_losses argsort fwd model test_loader device loss_function)
     = Inr (take 5 (argsort losses), drop (length (argsort losses) - 5) (argsort losses),
            originals', reconstructions')"
  by (simp add: calculate_losses_def Let_def loop fo fr best_5_indices_def worst_5_indices_def
      slice_to_5 slice_from_neg5)

lemma demo_forward_single:
  "demo_forward m (single_batch v) = Inr (single_batch 0, single_batch 0, single_batch 0)"
  by (simp add: demo_forward_def single_batch_def scalar_mul_def Let_def)

lemma losses_loop_single:
  "losses_loop (demo_forward m) sum_loss device (map single_batch vs) rl os rs
     = Inr (rl @ vs, os @ map single_batch vs, rs @ map (\<lambda>v. single_batch 0) vs)"
proof (induction vs arbitrary: rl os rs)
  case Nil
  then show ?case by simp
next
  case (Cons v vs)
  have "item (torch_sum (single_batch v)) = Inr v"
    by (simp add: item_def torch_sum_def scalar_tensor_def single_batch_def)
  then show ?case
    using Cons.IH [of "rl @ [v]" "os @ [single_batch v]" "rs @ [single_batch 0]"]
    by (simp add: Let_def to_device_def demo_forward_single sum_loss_def)
qed

lemma unbind_single: "unbind (single_batch v) = Inr [pixel v]"
proof -
  have "chunks (Suc 0) (Suc 0) [v] = [[v]]"
    by simp
  then show ?thesis
    by (simp add: unbind_def rows_def single_batch_def pixel_def)
qed

lemma flatten_single: "flatten_batches (map single_batch vs) = Inr (map pixel vs)"
  by (induction vs) (simp_all add: unbind_single)














text \<open>
  C9.  For one to four losses, when the loop has collected them and the flattening
  succeeds, \<open>calculate_losses\<close> returns best and worst index lists of \<open>min 5 N = N\<close>
  entries, each entry an index below \<open>N\<close>.  The slices clamp their bounds, so the
  ranking adds no failure of its own.
\<close>

theorem calculate_losses_small_lists:
  assumes loop: "losses_loop (fwd (model_eval model)) loss_function device test_loader [] [] []
      = Inr (losses, originals, reconstructions)"
    and fo: "flatten_batches originals = Inr originals'"
    and fr: "flatten_batches reconstructions = Inr reconstructions'"
    and srt: "is_argsort losses (argsort losses)"
    and lo: "1 \<le> length losses" and hi: "length losses < 5"
  shows "\<exists>best worst.
      fst (calculate_losses argsort fwd model test_loader device loss_function)
        = Inr (best, worst, originals', reconstructions')
      \<and> length best = min 5 (length losses) \<and> length worst = min 5 (length losses)
      \<and> set best \<subseteq> {0..<length losses} \<and> set worst \<subseteq> {0..<length losses}"
proof -
  have len: "length (argsort losses) = length losses"
    using srt by (rule is_argsort_length)
  have st: "set (argsort losses) = {0..<length losses}"
    using srt by (rule is_argsort_set)
  let ?best = "take 5 (argsort losses)"
  let ?worst = "drop (length (argsort losses) - 5) (argsort losses)"
  have res: "fst (calculate_losses argsort fwd model test_loader device loss_function)
       = Inr (?best, ?worst, originals', reconstructions')"
    by (rule calculate_losses_result [where fwd = fwd and model = model, OF loop fo fr])
  have "length ?best = min 5 (length losses)" "length ?worst = min 5 (length losses)"
    using len hi by simp_all
  moreover have "set ?best \<subseteq> {0..<length losses}" "set ?worst \<subseteq> {0..<length losses}"
    using st set_take_subset [of 5 "argsort losses"]
      set_drop_subset [of "length (argsort losses) - 5" "argsort losses"] by simp_all
  ultimately show ?thesis
    using res by blast
qed

theorem calculate_losses_small_lists_witness:
  "losses_loop (demo_forward (model_eval demo_model)) sum_loss ()
       (map single_batch [3, 1]) [] [] []
     = Inr ([3, 1], map single_batch [3, 1], map single_batch [0, 0])
   \<and> flatten_batches (map single_batch [3, 1]) = Inr (map pixel [3, 1])
   \<and> flatten_batches (map single_batch [0, 0]) = Inr (map pixel [0, 0])
   \<and> is_argsort [3, 1] (stable_argsort [3, 1])
   \<and> 1 \<le> length [3, 1 :: real] \<and> length [3, 1 :: real] < 5
   \<and> (\<exists>best worst.
         fst (calculate_losses stable_argsort demo_forward demo_model
                (map single_batch [3, 1]) () sum_loss)
           = Inr (best, worst, map pixel [3, 1], map pixel [0, 0])
         \<and> length best = 2 \<and> length worst = 2
         \<and> set best \<subseteq> {0..<2} \<and> set worst \<subseteq> {0..<2})"
proof -
  have loop: "losses_loop (demo_forward (model_eval demo_model)) sum_loss ()
       (map single_batch [3, 1]) [] [] []
     = Inr ([3, 1], map single_batch [3, 1], map single_batch [0, 0])"
    using losses_loop_single [of "model_eval demo_model" "()" "[3, 1]" "[]" "[]" "[]"]
    by simp
  have fo: "flatten_batches (map single_batch [3, 1]) = Inr (map pixel [3, 1])"
    by (rule flatten_single)
  have fr: "flatten_batches (map single_batch [0, 0]) = Inr (map pixel [0, 0])"
    by (rule flatten_single)
  have srt: "is_argsort [3, 1] (stable_argsort [3, 1])"
    by (rule stable_argsort_is_argsort)
  have lo: "1 \<le> length [3, 1 :: real]" and hi: "length [3, 1 :: real] < 5"
    by simp_all
  have "\<exists>best worst.
         fst (calculate_losses stable_argsort demo_forward demo_model
                (map single_batch [3, 1]) () sum_loss)
           = Inr (best, worst, map pixel [3, 1], map pixel [0, 0])
         \<and> length best = 2 \<and> length worst = 2
         \<and> set best \<subseteq> {0..<2} \<and> set worst \<subseteq> {0..<2}"
    using calculate_losses_small_lists
      [where fwd = demo_forward and model = demo_model and argsort = stable_argsort,
        OF loop fo fr srt lo hi]
    by (simp add: numeral_2_eq_2)
  then show ?thesis
    using loop fo fr srt lo hi by blast
qed

end
